theory Spec2Isabelle
  imports Main "HOL-Library.Word" "HOL-Library.Sublist" "HOL-Library.Monad_Syntax"
begin

section \<open>Data model\<close>

text \<open>
  The two Go structs of the service. A Go slice is either \<open>nil\<close> or a (possibly empty)
  sequence; the difference is visible in the JSON encoding, so a slice is an optional list
  with \<open>None\<close> for \<open>nil\<close>.
\<close>

type_synonym 'a slice = "'a list option"

definition elems :: "'a slice \<Rightarrow> 'a list" where
  \<comment> \<open>the elements a \<open>for ... range\<close> loop visits\<close>
  "elems s = (case s of None \<Rightarrow> [] | Some xs \<Rightarrow> xs)"

definition append :: "'a slice \<Rightarrow> 'a \<Rightarrow> 'a slice" where
  \<comment> \<open>the builtin \<open>append(s, x)\<close>: the result is never \<open>nil\<close>\<close>
  "append s x = Some (elems s @ [x])"

record Item =
  ID :: string
  Name :: string
  Category :: string
  ImageName :: string

record Items =
  Items :: "Item slice"

definition zero_Item :: Item where
  "zero_Item = \<lparr>ID = [], Name = [], Category = [], ImageName = []\<rparr>"

definition zero_Items :: Items where
  \<comment> \<open>\<open>var items Items\<close>\<close>
  "zero_Items = \<lparr>Items = None\<rparr>"

section \<open>Library functions the handlers call\<close>

text \<open>
  \<open>crypto/sha256\<close>, the JSON string-literal encoder and \<open>json.Unmarshal\<close> (decoding into a
  zero \<open>Items\<close>: the value left in the target, and the error if any) are parameters of the
  model. The framing of the JSON encoder, \<open>filepath.Ext\<close>, \<open>strings.Contains\<close>,
  \<open>strconv.FormatInt\<close> in base 10 and the \<open>%x\<close> verb are written out, \<open>filepath.Ext\<close>
  with the slash as the only path separator.
\<close>

record platform =
  sha256 :: "string \<Rightarrow> string"
  quote :: "string \<Rightarrow> string"
  Unmarshal :: "string \<Rightarrow> Items \<times> string option"

definition newline :: string where
  "newline = [CHR 0x0A]"

subsection \<open>encoding/json: encoding\<close>

definition encode_Item :: "platform \<Rightarrow> Item \<Rightarrow> string" where
  \<comment> \<open>fields in declaration order; \<open>image_name\<close> carries \<open>omitempty\<close>\<close>
  \<open>encode_Item p it =
     ''{"id":'' @ quote p (ID it) @ '',"name":'' @ quote p (Name it)
     @ '',"category":'' @ quote p (Category it)
     @ (if ImageName it = [] then [] else '',"image_name":'' @ quote p (ImageName it))
     @ ''}''\<close>

fun join_commas :: "string list \<Rightarrow> string" where
  "join_commas [] = []"
| "join_commas [x] = x"
| "join_commas (x # y # ys) = x @ '','' @ join_commas (y # ys)"

definition encode_slice :: "platform \<Rightarrow> Item slice \<Rightarrow> string" where
  \<comment> \<open>a nil slice encodes as \<open>null\<close>, any other as an array\<close>
  "encode_slice p s = (case s of None \<Rightarrow> ''null''
     | Some xs \<Rightarrow> ''['' @ join_commas (map (encode_Item p) xs) @ '']'')"

definition encode_items_object :: "platform \<Rightarrow> Item slice \<Rightarrow> string" where
  \<comment> \<open>both \<open>Items{Items: s}\<close> and \<open>map[string][]Item{"items": s}\<close>\<close>
  \<open>encode_items_object p s = ''{"items":'' @ encode_slice p s @ ''}''\<close>

definition Marshal :: "platform \<Rightarrow> Items \<Rightarrow> string + string" where
  \<comment> \<open>\<open>json.Marshal(items)\<close>; \<open>Inl\<close> is the error. A struct of strings always encodes.\<close>
  "Marshal p items = Inr (encode_items_object p (Items items))"

definition Encode_item :: "platform \<Rightarrow> Item \<Rightarrow> string" where
  \<comment> \<open>\<open>json.NewEncoder(w).Encode(item)\<close>: the encoding and a newline\<close>
  "Encode_item p it = encode_Item p it @ newline"

definition Encode_items_map :: "platform \<Rightarrow> Item slice \<Rightarrow> string" where
  \<comment> \<open>\<open>Encode(map[string][]Item{"items": s})\<close>\<close>
  "Encode_items_map p s = encode_items_object p s @ newline"

definition Encode_message :: "platform \<Rightarrow> string \<Rightarrow> string" where
  \<comment> \<open>\<open>Encode(map[string]string{"message": m})\<close>\<close>
  \<open>Encode_message p m = ''{"message":'' @ quote p m @ ''}'' @ newline\<close>

subsection \<open>path/filepath, fmt, strconv, strings\<close>

fun Ext_loop :: "string \<Rightarrow> string \<Rightarrow> string" where
  \<comment> \<open>first argument: \<open>path[0..i]\<close> backwards; second: \<open>path[i+1..]\<close>\<close>
  "Ext_loop [] rest = []"
| "Ext_loop (c # cs) rest =
     (if c = CHR ''/'' then []
      else if c = CHR ''.'' then c # rest
      else Ext_loop cs (c # rest))"

definition Ext :: "string \<Rightarrow> string" where
  "Ext path = Ext_loop (rev path) []"

definition hexdigit :: "nat \<Rightarrow> char" where
  "hexdigit n = ''0123456789abcdef'' ! (n mod 16)"

definition hex_byte :: "char \<Rightarrow> string" where
  "hex_byte c = [hexdigit (of_char c div 16), hexdigit (of_char c mod 16)]"

definition hex :: "string \<Rightarrow> string" where
  \<comment> \<open>\<open>fmt.Sprintf("%x", bytes)\<close>\<close>
  "hex bs = concat (map hex_byte bs)"

definition digit_char :: "nat \<Rightarrow> char" where
  "digit_char d = char_of (48 + d mod 10)"

fun digits :: "nat \<Rightarrow> string" where
  "digits n = (if n < 10 then [digit_char n] else digits (n div 10) @ [digit_char (n mod 10)])"

declare digits.simps [simp del]

definition FormatInt :: "64 word \<Rightarrow> string" where
  \<comment> \<open>\<open>strconv.FormatInt(i, 10)\<close> of an \<open>int64\<close>\<close>
  "FormatInt i = (if sint i < 0 then CHR ''-'' # digits (nat (- sint i)) else digits (nat (sint i)))"

fun HasPrefix :: "string \<Rightarrow> string \<Rightarrow> bool" where
  "HasPrefix s [] = True"
| "HasPrefix [] (c # cs) = False"
| "HasPrefix (d # ds) (c # cs) = (d = c \<and> HasPrefix ds cs)"

fun Contains :: "string \<Rightarrow> string \<Rightarrow> bool" where
  \<comment> \<open>\<open>strings.Contains(s, substr)\<close>: some position of \<open>s\<close> starts \<open>substr\<close>\<close>
  "Contains [] sub = (sub = [])"
| "Contains (c # s) sub = (HasPrefix (c # s) sub \<or> Contains s sub)"

section \<open>Responses\<close>

text \<open>
  A response is what a handler hands to the \<open>ResponseWriter\<close>: the status, the content
  type it sets itself if any, and the body. Writing to the connection is taken to
  succeed, so the branches that follow a failed \<open>Encode\<close> have no counterpart here.
\<close>

record response =
  status :: nat
  content_type :: "string option"
  body :: string

definition http_Error :: "string \<Rightarrow> nat \<Rightarrow> response" where
  \<comment> \<open>\<open>http.Error(w, msg, code)\<close>\<close>
  "http_Error msg code =
     \<lparr>status = code, content_type = Some ''text/plain; charset=utf-8'', body = msg @ newline\<rparr>"

definition http_NotFound :: response where
  "http_NotFound = http_Error ''404 page not found'' 404"

definition json_ok :: "string \<Rightarrow> response" where
  \<comment> \<open>Content-Type set to \<open>application/json\<close>, then the body written: status 200\<close>
  "json_ok b = \<lparr>status = 200, content_type = Some ''application/json'', body = b\<rparr>"

section \<open>Files\<close>

text \<open>
  \<open>items.json\<close> is missing, present but not readable (with the error \<open>ReadFile\<close> gives),
  or holds bytes. The \<open>images\<close> directory maps file names to contents.
\<close>

datatype document = Missing | Unreadable string | Stored string

record world =
  items_json :: document
  images :: "string \<rightharpoonup> string"

fun ReadFile :: "document \<Rightarrow> string + string" where
  "ReadFile Missing = Inl ''open items.json: no such file or directory''"
| "ReadFile (Unreadable e) = Inl e"
| "ReadFile (Stored d) = Inr d"

text \<open>
  \<open>ioutil.WriteFile\<close> opens the file truncating it, writes, and closes. It can fail before
  the file is touched, or after truncation with only some bytes written.
\<close>

datatype wfault = WriteOk | OpenFails string | WriteFails nat string

fun WriteFile :: "wfault \<Rightarrow> document \<Rightarrow> string \<Rightarrow> document \<times> string option" where
  "WriteFile WriteOk doc data = (Stored data, None)"
| "WriteFile (OpenFails e) doc data = (doc, Some e)"
| "WriteFile (WriteFails k e) doc data = (Stored (take k data), Some e)"

text \<open>
  What the environment does to one POST, by the failures of the I/O calls it makes:
  reading the upload into the hash, creating the image file, copying the upload into it
  (with the number of bytes that got written), and writing \<open>items.json\<close>. Rewinding the
  upload with \<open>Seek\<close> is taken to succeed; the code does not look at its result.
\<close>

record faults =
  hash_fails :: bool
  create_fails :: bool
  save_fails :: "nat option"
  write_fault :: wfault

definition no_faults :: faults where
  "no_faults = \<lparr>hash_fails = False, create_fails = False, save_fails = None, write_fault = WriteOk\<rparr>"

section \<open>Requests\<close>

text \<open>
  What a handler reads of a POST: the error of \<open>ParseMultipartForm\<close> if any, the form
  values \<open>name\<close> and \<open>category\<close> (\<open>FormValue\<close> gives the empty string for an absent
  key), and the uploaded file \<open>image\<close> if there is one.
\<close>

record upload =
  Filename :: string
  content :: string

record post_request =
  form_error :: "string option"
  form_name :: string
  form_category :: string
  form_image :: "upload option"

section \<open>The handlers of the file-backed service\<close>

definition getItemsHandler :: "world \<Rightarrow> response" where
  "getItemsHandler w =
     (case ReadFile (items_json w) of
        Inl err \<Rightarrow> http_Error err 500
      | Inr data \<Rightarrow> json_ok data)"

definition created :: "platform \<Rightarrow> string \<Rightarrow> response" where
  \<comment> \<open>\<open>w.WriteHeader(http.StatusCreated)\<close> and the message\<close>
  "created p n = \<lparr>status = 201, content_type = None,
     body = Encode_message p (''item received: '' @ n)\<rparr>"

definition postItemsHandler ::
  "platform \<Rightarrow> faults \<Rightarrow> 64 word \<Rightarrow> post_request \<Rightarrow> world \<Rightarrow> response \<times> world" where
  \<comment> \<open>\<open>now\<close> is what \<open>time.Now().UnixNano()\<close> reads during the call\<close>
  "postItemsHandler p f now r w =
     (case form_error r of
        Some err \<Rightarrow> (http_Error err 400, w)
      | None \<Rightarrow>
     (let item = zero_Item\<lparr>Name := form_name r, Category := form_category r, ID := FormatInt now\<rparr>
      in case form_image r of
        None \<Rightarrow> (http_Error ''Image is required'' 400, w)
      | Some file \<Rightarrow>
     if hash_fails f then (http_Error ''Failed to hash the image'' 500, w)
     else
     (let hashedFilename = hex (sha256 p (content file)) @ Ext (Filename file);
          item = item\<lparr>ImageName := hashedFilename\<rparr>
      in
     if create_fails f then (http_Error ''Failed to save the image'' 500, w)
     else
     (case save_fails f of
        Some k \<Rightarrow> (http_Error ''Failed to save the image'' 500,
                   w\<lparr>images := (images w)(hashedFilename \<mapsto> take k (content file))\<rparr>)
      | None \<Rightarrow>
     (let w = w\<lparr>images := (images w)(hashedFilename \<mapsto> content file)\<rparr>;
          items = (case ReadFile (items_json w) of
                     Inr data \<Rightarrow> fst (Unmarshal p data)
                   | Inl err \<Rightarrow> zero_Items);
          items = items\<lparr>Items := append (Items items) item\<rparr>
      in case Marshal p items of
        Inl err \<Rightarrow> (http_Error err 500, w)
      | Inr updatedData \<Rightarrow>
          (created p (Name item),
           w\<lparr>items_json := fst (WriteFile (write_fault f) (items_json w) updatedData)\<rparr>))))))"

fun getItem_loop :: "string \<Rightarrow> Item list \<Rightarrow> Item option" where
  \<comment> \<open>the \<open>for ... range\<close> loop with its early return; \<open>None\<close>: the loop ran out\<close>
  "getItem_loop itemID [] = None"
| "getItem_loop itemID (item # rest) =
     (if ID item = itemID then Some item else getItem_loop itemID rest)"

definition getItemHandler :: "platform \<Rightarrow> string \<Rightarrow> world \<Rightarrow> response" where
  "getItemHandler p itemID w =
     (case ReadFile (items_json w) of
        Inl err \<Rightarrow> http_Error err 500
      | Inr data \<Rightarrow>
     (case Unmarshal p data of
        (items, Some err) \<Rightarrow> http_Error err 500
      | (items, None) \<Rightarrow>
     (case getItem_loop itemID (elems (Items items)) of
        Some item \<Rightarrow> json_ok (Encode_item p item)
      | None \<Rightarrow> http_NotFound)))"

fun search_loop :: "string \<Rightarrow> Item list \<Rightarrow> Item slice \<Rightarrow> Item slice" where
  \<comment> \<open>third argument: \<open>matchedItems\<close> so far\<close>
  "search_loop keyword [] matchedItems = matchedItems"
| "search_loop keyword (item # rest) matchedItems =
     search_loop keyword rest
       (if Contains (Name item) keyword \<or> Contains (Category item) keyword
        then append matchedItems item else matchedItems)"

definition searchItemsHandler :: "platform \<Rightarrow> string \<Rightarrow> world \<Rightarrow> response" where
  "searchItemsHandler p keyword w =
     (if keyword = [] then http_Error ''Keyword parameter is missing'' 400
      else
     (case ReadFile (items_json w) of
        Inl err \<Rightarrow> http_Error err 500
      | Inr data \<Rightarrow>
     (case Unmarshal p data of
        (items, Some err) \<Rightarrow> http_Error err 500
      | (items, None) \<Rightarrow>
          json_ok (Encode_items_map p (search_loop keyword (elems (Items items)) None)))))"

section \<open>The handlers of the earlier variant (go/app/main.go)\<close>

text \<open>
  Its POST and list code is the text of \<open>postItemsHandler\<close> and \<open>getItemsHandler\<close> under
  one handler that branches on the method. Its item lookup drops the error of
  \<open>json.Unmarshal\<close> and sets no content type; its search never reads the catalog. The
  router gives \<open>itemsHandler\<close> the methods POST and GET only. The database-backed listing
  of \<open>main2.go\<close> is outside this development.
\<close>

datatype http_method = GET | POST

definition app_itemsHandler ::
  "platform \<Rightarrow> faults \<Rightarrow> 64 word \<Rightarrow> http_method \<Rightarrow> post_request \<Rightarrow> world \<Rightarrow> response \<times> world" where
  "app_itemsHandler p f now m r w =
     (if m = POST then postItemsHandler p f now r w
      else (getItemsHandler w, w))"

definition app_getItemHandler :: "platform \<Rightarrow> string \<Rightarrow> world \<Rightarrow> response" where
  "app_getItemHandler p itemID w =
     (case ReadFile (items_json w) of
        Inl err \<Rightarrow> http_Error err 500
      | Inr data \<Rightarrow>
     (let items = fst (Unmarshal p data)
      in case getItem_loop itemID (elems (Items items)) of
        Some item \<Rightarrow> \<lparr>status = 200, content_type = None, body = Encode_item p item\<rparr>
      | None \<Rightarrow> http_NotFound))"

definition app_searchItemsHandler :: "platform \<Rightarrow> string \<Rightarrow> response" where
  "app_searchItemsHandler p keyword =
     (if keyword = [] then http_Error ''Keyword parameter is missing'' 400
      else json_ok (Encode_items_map p None))"

section \<open>A platform instance for concrete runs\<close>

text \<open>
  An instance of the parameters, to run the handlers on concrete requests. Its string
  encoder puts the bytes between double quotes, which is what the JSON encoder does for
  printable ASCII without quotes, backslashes or HTML characters. Its decoder reads the
  documents that \<open>Marshal\<close> writes for such strings and rejects every other input. Its
  digest is a stand-in with 32 bytes of output.
\<close>

definition demo_quote :: "string \<Rightarrow> string" where
  "demo_quote s = CHR 0x22 # s @ [CHR 0x22]"

fun strip_prefix :: "string \<Rightarrow> string \<Rightarrow> string option" where
  "strip_prefix [] s = Some s"
| "strip_prefix (c # cs) [] = None"
| "strip_prefix (c # cs) (d # ds) = (if c = d then strip_prefix cs ds else None)"

definition read_string :: "string \<Rightarrow> (string \<times> string) option" where
  "read_string s =
     (case s of
        [] \<Rightarrow> None
      | c # cs \<Rightarrow>
          if c \<noteq> CHR 0x22 then None
          else (case dropWhile (\<lambda>c. c \<noteq> CHR 0x22) cs of
                  [] \<Rightarrow> None
                | _ # rest \<Rightarrow>
                    if CHR 0x5C \<in> set (takeWhile (\<lambda>c. c \<noteq> CHR 0x22) cs) then None
                    else Some (takeWhile (\<lambda>c. c \<noteq> CHR 0x22) cs, rest)))"

definition read_item :: "string \<Rightarrow> (Item \<times> string) option" where
  \<open>read_item s = do {
     s \<leftarrow> strip_prefix ''{"id":'' s;
     (i, s) \<leftarrow> read_string s;
     s \<leftarrow> strip_prefix '',"name":'' s;
     (n, s) \<leftarrow> read_string s;
     s \<leftarrow> strip_prefix '',"category":'' s;
     (c, s) \<leftarrow> read_string s;
     (case strip_prefix '',"image_name":'' s of
        Some s \<Rightarrow> do {
          (m, s) \<leftarrow> read_string s;
          s \<leftarrow> strip_prefix ''}'' s;
          if m = [] then None
          else Some (\<lparr>ID = i, Name = n, Category = c, ImageName = m\<rparr>, s) }
      | None \<Rightarrow> do {
          s \<leftarrow> strip_prefix ''}'' s;
          Some (\<lparr>ID = i, Name = n, Category = c, ImageName = []\<rparr>, s) })
   }\<close>

fun read_items :: "nat \<Rightarrow> string \<Rightarrow> (Item list \<times> string) option" where
  \<comment> \<open>the elements of a non-empty array, after its opening bracket; the number bounds
      how many elements are read\<close>
  "read_items 0 s = None"
| "read_items (Suc k) s = do {
     (it, s) \<leftarrow> read_item s;
     (case s of
        [] \<Rightarrow> None
      | c # s \<Rightarrow>
          if c = CHR '','' then do { (its, s) \<leftarrow> read_items k s; Some (it # its, s) }
          else if c = CHR '']'' then Some ([it], s)
          else None)
   }"

definition demo_Unmarshal :: "string \<Rightarrow> Items \<times> string option" where
  \<open>demo_Unmarshal data =
     (case strip_prefix ''{"items":'' data of
        None \<Rightarrow> (zero_Items, Some ''invalid document'')
      | Some s \<Rightarrow>
          if s = ''null}'' then (zero_Items, None)
          else if s = ''[]}'' then (\<lparr>Items = Some []\<rparr>, None)
          else (case strip_prefix ''['' s of
                  None \<Rightarrow> (zero_Items, Some ''invalid document'')
                | Some s \<Rightarrow>
                    (case read_items (length s) s of
                       Some (its, rest) \<Rightarrow>
                         if rest = ''}'' then (\<lparr>Items = Some its\<rparr>, None)
                         else (zero_Items, Some ''invalid document'')
                     | None \<Rightarrow> (zero_Items, Some ''invalid document''))))\<close>

definition demo_digest :: "string \<Rightarrow> string" where
  "demo_digest bs = replicate 31 (CHR 0x00) @ [char_of (sum_list (map of_char bs) :: nat)]"

definition demo :: platform where
  "demo = \<lparr>sha256 = demo_digest, quote = demo_quote, Unmarshal = demo_Unmarshal\<rparr>"

section \<open>Notions used in the statements\<close>

definition matches :: "string \<Rightarrow> Item \<Rightarrow> bool" where
  \<comment> \<open>the condition of the search loop\<close>
  "matches keyword it \<longleftrightarrow> Contains (Name it) keyword \<or> Contains (Category it) keyword"

definition undigits :: "string \<Rightarrow> nat" where
  \<comment> \<open>the number a string of decimal digits denotes\<close>
  "undigits s = foldl (\<lambda>a c. 10 * a + (of_char c - 48)) 0 s"

definition accepted :: "faults \<Rightarrow> post_request \<Rightarrow> upload \<Rightarrow> bool" where
  \<comment> \<open>the POST reaches the catalog code: the form parses, carries the file, and the image
      is hashed and saved\<close>
  "accepted f r file \<longleftrightarrow>
     form_error r = None \<and> form_image r = Some file \<and>
     \<not> hash_fails f \<and> \<not> create_fails f \<and> save_fails f = None"

definition loaded :: "platform \<Rightarrow> world \<Rightarrow> Item list" where
  \<comment> \<open>the items the POST code holds after its read of the catalog\<close>
  "loaded p w =
     elems (Items (case ReadFile (items_json w) of
                     Inr data \<Rightarrow> fst (Unmarshal p data)
                   | Inl err \<Rightarrow> zero_Items))"

definition new_item :: "platform \<Rightarrow> 64 word \<Rightarrow> post_request \<Rightarrow> upload \<Rightarrow> Item" where
  \<comment> \<open>the item a POST builds\<close>
  "new_item p now r file =
     \<lparr>ID = FormatInt now, Name = form_name r, Category = form_category r,
      ImageName = hex (sha256 p (content file)) @ Ext (Filename file)\<rparr>"

definition roundtrips :: "platform \<Rightarrow> Item list \<Rightarrow> bool" where
  \<comment> \<open>the decoder reads back the document the encoder writes for these items\<close>
  "roundtrips p xs \<longleftrightarrow>
     Unmarshal p (encode_items_object p (Some xs)) = (\<lparr>Items = Some xs\<rparr>, None)"

record call =
  call_faults :: faults
  call_now :: "64 word"
  call_request :: post_request

fun serve_posts :: "platform \<Rightarrow> call list \<Rightarrow> world \<Rightarrow> world" where
  \<comment> \<open>POST requests served one after the other\<close>
  "serve_posts p [] w = w"
| "serve_posts p (c # cs) w =
     serve_posts p cs (snd (postItemsHandler p (call_faults c) (call_now c) (call_request c) w))"

definition call_item :: "platform \<Rightarrow> call \<Rightarrow> Item" where
  \<comment> \<open>the item the call builds when its form carries a file\<close>
  "call_item p c =
     (case form_image (call_request c) of
        Some file \<Rightarrow> new_item p (call_now c) (call_request c) file
      | None \<Rightarrow> zero_Item)"

definition call_ok :: "call \<Rightarrow> bool" where
  \<comment> \<open>the call reaches the catalog code and its write of the document succeeds\<close>
  "call_ok c \<longleftrightarrow>
     (\<exists>file. accepted (call_faults c) (call_request c) file) \<and>
     write_fault (call_faults c) = WriteOk"

section \<open>Concrete catalogs and requests\<close>

definition shoe :: Item where
  "shoe = \<lparr>ID = ''1'', Name = ''Shoe'', Category = ''Fashion'', ImageName = ''ab.jpg''\<rparr>"

definition book :: Item where
  "book = \<lparr>ID = ''2'', Name = ''Book'', Category = ''Media'', ImageName = []\<rparr>"

definition two_items_doc :: string where
  "two_items_doc = encode_items_object demo (Some [shoe, book])"

definition no_images :: "string \<rightharpoonup> string" where
  "no_images = Map.empty"

definition w_two :: world where
  "w_two = \<lparr>items_json = Stored two_items_doc, images = no_images\<rparr>"

definition corrupt_doc :: string where
  \<comment> \<open>a document cut off in the middle of its first item\<close>
  \<open>corrupt_doc = ''{"items":[{"id":"1","name":"Sho''\<close>

definition w_corrupt :: world where
  "w_corrupt = \<lparr>items_json = Stored corrupt_doc, images = no_images\<rparr>"

definition w_missing :: world where
  "w_missing = \<lparr>items_json = Missing, images = no_images\<rparr>"

definition cap_file :: upload where
  "cap_file = \<lparr>Filename = ''cap.png'', content = ''xyz''\<rparr>"

definition req_cap :: post_request where
  "req_cap = \<lparr>form_error = None, form_name = ''Cap'', form_category = ''Fashion'',
     form_image = Some cap_file\<rparr>"

definition mug_file :: upload where
  "mug_file = \<lparr>Filename = ''photos/mug.v2.png'', content = ''xyz''\<rparr>"

definition req_mug :: post_request where
  "req_mug = \<lparr>form_error = None, form_name = ''Mug'', form_category = ''Kitchen'',
     form_image = Some mug_file\<rparr>"

definition cap_jpeg_file :: upload where
  "cap_jpeg_file = \<lparr>Filename = ''cap.jpeg'', content = ''xyz''\<rparr>"

definition req_cap_jpeg :: post_request where
  "req_cap_jpeg = \<lparr>form_error = None, form_name = ''Cap'', form_category = ''Fashion'',
     form_image = Some cap_jpeg_file\<rparr>"

definition write_refused :: faults where
  "write_refused = no_faults\<lparr>write_fault := OpenFails ''open items.json: permission denied''\<rparr>"

definition write_cut_short :: faults where
  "write_cut_short = no_faults\<lparr>write_fault := WriteFails 6 ''write items.json: no space left on device''\<rparr>"

definition call_cap :: call where
  "call_cap = \<lparr>call_faults = no_faults, call_now = 7, call_request = req_cap\<rparr>"

definition call_mug_later :: call where
  "call_mug_later = \<lparr>call_faults = no_faults, call_now = 8, call_request = req_mug\<rparr>"

definition call_mug_same :: call where
  "call_mug_same = \<lparr>call_faults = no_faults, call_now = 7, call_request = req_mug\<rparr>"

section \<open>Library functions: what they compute\<close>

lemma HasPrefix_iff: "HasPrefix s sub \<longleftrightarrow> (\<exists>post. s = sub @ post)"
  by (induction s sub rule: HasPrefix.induct) auto

lemma Contains_iff: "Contains s sub \<longleftrightarrow> (\<exists>pre post. s = pre @ sub @ post)"
proof (induction s)
  case Nil
  then show ?case by simp
next
  case (Cons c s)
  show ?case
  proof
    assume "Contains (c # s) sub"
    then consider "HasPrefix (c # s) sub" | "Contains s sub" by auto
    then show "\<exists>pre post. c # s = pre @ sub @ post"
    proof cases
      case 1
      then obtain post where "c # s = sub @ post" by (auto simp: HasPrefix_iff)
      then have "c # s = [] @ sub @ post" by simp
      then show ?thesis by blast
    next
      case 2
      then obtain pre post where "s = pre @ sub @ post" using Cons.IH by blast
      then have "c # s = (c # pre) @ sub @ post" by simp
      then show ?thesis by blast
    qed
  next
    assume "\<exists>pre post. c # s = pre @ sub @ post"
    then obtain pre post where eq: "c # s = pre @ sub @ post" by blast
    show "Contains (c # s) sub"
    proof (cases pre)
      case Nil
      with eq have "HasPrefix (c # s) sub" by (auto simp: HasPrefix_iff)
      then show ?thesis by simp
    next
      case (Cons a pre')
      with eq have "s = pre' @ sub @ post" by simp
      then have "Contains s sub" using Cons.IH by blast
      then show ?thesis by simp
    qed
  qed
qed

lemma of_char_digit_char: "d < 10 \<Longrightarrow> (of_char (digit_char d) :: nat) = 48 + d"
  by (simp add: digit_char_def)

lemma undigits_snoc: "undigits (s @ [c]) = 10 * undigits s + (of_char c - 48)"
  by (simp add: undigits_def)

lemma undigits_digits: "undigits (digits n) = n"
proof (induction n rule: digits.induct)
  case (1 n)
  show ?case
  proof (cases "n < 10")
    case True
    then show ?thesis by (simp add: digits.simps [of n] undigits_def of_char_digit_char)
  next
    case False
    then show ?thesis
      using 1 by (simp add: digits.simps [of n] undigits_snoc of_char_digit_char)
  qed
qed

lemma digits_inj: "digits a = digits b \<Longrightarrow> a = b"
  by (metis undigits_digits)

lemma digit_char_not_minus: "digit_char d \<noteq> CHR ''-''"
proof
  assume "digit_char d = CHR ''-''"
  then have "(of_char (digit_char d) :: nat) = of_char (CHR ''-'')" by simp
  then show False using of_char_digit_char [of "d mod 10"] by (simp add: digit_char_def)
qed

lemma hd_digits: "\<exists>d rest. digits n = digit_char d # rest"
proof (induction n rule: digits.induct)
  case (1 n)
  show ?case
  proof (cases "n < 10")
    case True
    then show ?thesis by (auto simp: digits.simps [of n])
  next
    case False
    then obtain d rest where "digits (n div 10) = digit_char d # rest" using 1 by blast
    then show ?thesis using False by (auto simp: digits.simps [of n])
  qed
qed

lemma FormatInt_inj: "FormatInt a = FormatInt b \<Longrightarrow> a = b"
proof -
  assume eq: "FormatInt a = FormatInt b"
  have neg: "CHR ''-'' # digits m \<noteq> digits n" for m n
    using hd_digits [of n] digit_char_not_minus by (metis list.inject)
  have "sint a = sint b"
  proof (cases "sint a < 0"; cases "sint b < 0")
    assume "sint a < 0" "sint b < 0"
    with eq have "nat (- sint a) = nat (- sint b)" by (auto simp: FormatInt_def dest: digits_inj)
    with \<open>sint a < 0\<close> \<open>sint b < 0\<close> show ?thesis by linarith
  next
    assume "sint a < 0" "\<not> sint b < 0"
    with eq neg show ?thesis by (auto simp: FormatInt_def)
  next
    assume "\<not> sint a < 0" "sint b < 0"
    with eq neg [of "nat (- sint b)" "nat (sint a)"] show ?thesis by (auto simp: FormatInt_def)
  next
    assume "\<not> sint a < 0" "\<not> sint b < 0"
    with eq have "nat (sint a) = nat (sint b)" by (auto simp: FormatInt_def dest: digits_inj)
    with \<open>\<not> sint a < 0\<close> \<open>\<not> sint b < 0\<close> show ?thesis by linarith
  qed
  then show "a = b" by (rule signed_word_eqI)
qed

section \<open>The loops\<close>

lemma getItem_loop_first:
  "(\<forall>x \<in> set pre. ID x \<noteq> i) \<Longrightarrow> ID it = i \<Longrightarrow> getItem_loop i (pre @ it # post) = Some it"
  by (induction pre) auto

lemma getItem_loop_none:
  "(\<forall>x \<in> set xs. ID x \<noteq> i) \<Longrightarrow> getItem_loop i xs = None"
  by (induction xs) auto

lemma search_loop_filter:
  "search_loop keyword xs acc =
     (if filter (matches keyword) xs = [] then acc
      else Some (elems acc @ filter (matches keyword) xs))"
  by (induction xs arbitrary: acc) (auto simp: matches_def append_def elems_def)

lemma matches_iff:
  "matches keyword it \<longleftrightarrow>
     (\<exists>pre post. Name it = pre @ keyword @ post) \<or> (\<exists>pre post. Category it = pre @ keyword @ post)"
  by (simp add: matches_def Contains_iff)

section \<open>Search\<close>

text \<open>
  C4. For a stored document that decodes without error, the search answers 400 exactly
  when the keyword is empty. For any other keyword it answers 200 with the items whose
  name or category has the keyword as a contiguous run of bytes (so the match is
  case-sensitive), in catalog order. With no such item the answer is still 200; the
  sequence it carries is the nil slice.
\<close>

theorem searchItems_keyword_filter:
  assumes "items_json w = Stored d" and "Unmarshal p d = (its, None)"
  shows "((status (searchItemsHandler p keyword w) = 400) = (keyword = [])) \<and>
    (keyword = [] \<longrightarrow>
       searchItemsHandler p keyword w = http_Error ''Keyword parameter is missing'' 400) \<and>
    (keyword \<noteq> [] \<longrightarrow>
       (let found = filter (\<lambda>it. (\<exists>pre post. Name it = pre @ keyword @ post) \<or>
                                 (\<exists>pre post. Category it = pre @ keyword @ post))
                      (elems (Items its))
        in searchItemsHandler p keyword w =
             json_ok (Encode_items_map p (if found = [] then None else Some found))))"
proof -
  have m: "(\<lambda>it. (\<exists>pre post. Name it = pre @ keyword @ post) \<or>
                 (\<exists>pre post. Category it = pre @ keyword @ post)) = matches keyword"
    by (rule ext) (simp add: matches_iff)
  show ?thesis
    using assms unfolding m
    by (simp add: searchItemsHandler_def search_loop_filter elems_def http_Error_def
        json_ok_def Let_def)
qed

theorem searchItems_keyword_filter_witness:
  "items_json w_two = Stored two_items_doc \<and>
   Unmarshal demo two_items_doc = (\<lparr>Items = Some [shoe, book]\<rparr>, None) \<and>
   searchItemsHandler demo ''Sho'' w_two = json_ok (Encode_items_map demo (Some [shoe])) \<and>
   searchItemsHandler demo ''xyz'' w_two = json_ok (Encode_items_map demo None) \<and>
   searchItemsHandler demo [] w_two = http_Error ''Keyword parameter is missing'' 400"
proof -
  have h1: "items_json w_two = Stored two_items_doc" by (simp add: w_two_def)
  have h2: "Unmarshal demo two_items_doc = (\<lparr>Items = Some [shoe, book]\<rparr>, None)" by code_simp
  have m1: "matches ''Sho'' shoe" "\<not> matches ''Sho'' book" by code_simp+
  have m2: "\<not> matches ''xyz'' shoe" "\<not> matches ''xyz'' book" by code_simp+
  note t1 = searchItems_keyword_filter [OF h1 h2, of "''Sho''", folded matches_iff]
  note t2 = searchItems_keyword_filter [OF h1 h2, of "''xyz''", folded matches_iff]
  note t3 = searchItems_keyword_filter [OF h1 h2, of "[]"]
  show ?thesis
    using h1 h2 m1 m2 t1 t2 t3 by (simp add: elems_def)
qed

section \<open>Lookup by id\<close>

text \<open>
  C7. For a stored document that decodes without error, the lookup answers 200 with
  the first item of the catalog, in catalog order, whose id is the requested one, and 404
  when no item has that id. Both variants of the handler do so; the earlier one sets no
  content type.
\<close>

theorem getItem_first_match:
  assumes "items_json w = Stored d" and "Unmarshal p d = (its, None)"
  shows "(\<forall>pre it post.
            elems (Items its) = pre @ it # post \<and> ID it = itemID \<and> (\<forall>x \<in> set pre. ID x \<noteq> itemID)
            \<longrightarrow> getItemHandler p itemID w = json_ok (Encode_item p it) \<and>
                app_getItemHandler p itemID w =
                  \<lparr>status = 200, content_type = None, body = Encode_item p it\<rparr>) \<and>
         ((\<forall>x \<in> set (elems (Items its)). ID x \<noteq> itemID)
            \<longrightarrow> getItemHandler p itemID w = http_NotFound \<and>
                app_getItemHandler p itemID w = http_NotFound)"
  using assms
  by (auto simp: getItemHandler_def app_getItemHandler_def getItem_loop_first getItem_loop_none)

theorem getItem_first_match_witness:
  "items_json w_two = Stored two_items_doc \<and>
   Unmarshal demo two_items_doc = (\<lparr>Items = Some [shoe, book]\<rparr>, None) \<and>
   getItemHandler demo ''2'' w_two = json_ok (Encode_item demo book) \<and>
   app_getItemHandler demo ''2'' w_two =
     \<lparr>status = 200, content_type = None, body = Encode_item demo book\<rparr> \<and>
   getItemHandler demo ''nonexistent'' w_two = http_NotFound \<and>
   app_getItemHandler demo ''nonexistent'' w_two = http_NotFound"
proof -
  have h1: "items_json w_two = Stored two_items_doc" by (simp add: w_two_def)
  have h2: "Unmarshal demo two_items_doc = (\<lparr>Items = Some [shoe, book]\<rparr>, None)" by code_simp
  have e: "elems (Items \<lparr>Items = Some [shoe, book]\<rparr>) = [shoe] @ book # []"
    by (simp add: elems_def)
  have i: "ID book = ''2''" "\<forall>x \<in> set [shoe]. ID x \<noteq> ''2''"
    "\<forall>x \<in> set (elems (Items \<lparr>Items = Some [shoe, book]\<rparr>)). ID x \<noteq> ''nonexistent''"
    by (simp_all add: shoe_def book_def elems_def)
  from getItem_first_match [OF h1 h2, of "''2''"] e i(1,2)
  have t1: "getItemHandler demo ''2'' w_two = json_ok (Encode_item demo book) \<and>
     app_getItemHandler demo ''2'' w_two =
       \<lparr>status = 200, content_type = None, body = Encode_item demo book\<rparr>"
    by blast
  from getItem_first_match [OF h1 h2, of "''nonexistent''"] i(3)
  have t2: "getItemHandler demo ''nonexistent'' w_two = http_NotFound \<and>
     app_getItemHandler demo ''nonexistent'' w_two = http_NotFound"
    by blast
  show ?thesis using h1 h2 t1 t2 by simp
qed

section \<open>A search without matches\<close>

text \<open>
  C10. A search with a non-empty keyword that no item of the decoded catalog matches
  answers 200 with the body \<open>{"items":null}\<close> and a newline: \<open>matchedItems\<close> is still
  the nil slice when it is encoded, and a nil slice encodes as \<open>null\<close>, not as \<open>[]\<close>.
\<close>

theorem search_no_match_encodes_null:
  assumes "items_json w = Stored d" and "Unmarshal p d = (its, None)"
    and "keyword \<noteq> []"
    and "\<forall>it \<in> set (elems (Items its)).
           \<not> (\<exists>pre post. Name it = pre @ keyword @ post) \<and>
           \<not> (\<exists>pre post. Category it = pre @ keyword @ post)"
  shows \<open>searchItemsHandler p keyword w = json_ok (''{"items":null}'' @ newline)\<close>
proof -
  have "filter (matches keyword) (elems (Items its)) = []"
    using assms(4) by (auto simp: filter_empty_conv matches_iff)
  then show ?thesis
    using assms(1-3)
    by (simp add: searchItemsHandler_def search_loop_filter Encode_items_map_def
        encode_items_object_def encode_slice_def)
qed

theorem search_no_match_encodes_null_witness:
  \<open>items_json w_two = Stored two_items_doc \<and>
   Unmarshal demo two_items_doc = (\<lparr>Items = Some [shoe, book]\<rparr>, None) \<and>
   searchItemsHandler demo ''xyz'' w_two = json_ok (''{"items":null}'' @ newline)\<close>
proof -
  have h1: "items_json w_two = Stored two_items_doc" by (simp add: w_two_def)
  have h2: "Unmarshal demo two_items_doc = (\<lparr>Items = Some [shoe, book]\<rparr>, None)" by code_simp
  have h3: "''xyz'' \<noteq> []" by simp
  have m: "\<not> matches ''xyz'' shoe" "\<not> matches ''xyz'' book" by code_simp+
  have h4: "\<forall>it \<in> set (elems (Items \<lparr>Items = Some [shoe, book]\<rparr>)).
           \<not> (\<exists>pre post. Name it = pre @ ''xyz'' @ post) \<and>
           \<not> (\<exists>pre post. Category it = pre @ ''xyz'' @ post)"
    using m unfolding matches_iff by (simp add: elems_def)
  show ?thesis
    using h1 h2 search_no_match_encodes_null [OF h1 h2 h3 h4] by simp
qed

section \<open>Reads of a document that does not decode\<close>

text \<open>
  The lookup and the search of the complete variant check the error of
  \<open>json.Unmarshal\<close>: when the stored document does not decode, the lookup answers 500
  with the decoder's error for every id, and the search does so for every keyword it
  accepts.
\<close>

lemma read_handlers_report_decode_error:
  assumes "items_json w = Stored d" and "Unmarshal p d = (its, Some err)"
  shows "getItemHandler p itemID w = http_Error err 500 \<and>
         (keyword \<noteq> [] \<longrightarrow> searchItemsHandler p keyword w = http_Error err 500)"
  using assms by (simp add: getItemHandler_def searchItemsHandler_def)

text \<open>
  The lookup of the earlier variant calls \<open>json.Unmarshal\<close> without looking at its
  error and searches what was decoded. Whenever the decoder leaves no item with the
  requested id in the target, it answers 404, as if the catalog did not hold the item.
\<close>

lemma app_getItemHandler_drops_decode_error:
  assumes "items_json w = Stored d" and "Unmarshal p d = (its, Some err)"
    and "\<forall>x \<in> set (elems (Items its)). ID x \<noteq> itemID"
  shows "app_getItemHandler p itemID w = http_NotFound"
  using assms by (simp add: app_getItemHandler_def getItem_loop_none)

text \<open>
  C2. A read of a document that exists but does not decode has to fail as a storage
  failure. Take the document cut off in the middle of its first item, whose id is 1: the
  decoder reports an error and leaves the target empty. The lookup of the complete
  variant answers 500 with that error. The lookup of the earlier variant answers 404 for
  the id 1, which is the answer for a catalog without that item.
\<close>

theorem app_getItemHandler_not_found_on_corrupt_document:
  "items_json w_corrupt = Stored corrupt_doc \<and>
   Unmarshal demo corrupt_doc = (zero_Items, Some ''invalid document'') \<and>
   getItemHandler demo ''1'' w_corrupt = http_Error ''invalid document'' 500 \<and>
   app_getItemHandler demo ''1'' w_corrupt = http_NotFound \<and>
   status (app_getItemHandler demo ''1'' w_corrupt) = 404"
  by code_simp

section \<open>Creating an item\<close>

text \<open>
  What an accepted POST does: it answers 201, saves the image under the hashed file
  name, and writes the document that encodes the items it read followed by the new one.
\<close>

lemma postItemsHandler_accepted:
  assumes "accepted f r file"
  shows "postItemsHandler p f now r w =
     (created p (form_name r),
      \<lparr>items_json = fst (WriteFile (write_fault f) (items_json w)
           (encode_items_object p (Some (loaded p w @ [new_item p now r file])))),
       images = (images w)(ImageName (new_item p now r file) \<mapsto> content file)\<rparr>)"
  using assms
  by (simp add: accepted_def postItemsHandler_def Let_def Marshal_def append_def loaded_def
      new_item_def zero_Item_def)

lemma loaded_after_post:
  assumes "accepted f r file" and "write_fault f = WriteOk"
    and "roundtrips p (loaded p w @ [new_item p now r file])"
  shows "loaded p (snd (postItemsHandler p f now r w)) = loaded p w @ [new_item p now r file]"
  using assms(2,3)
  by (simp add: postItemsHandler_accepted [OF assms(1)] loaded_def roundtrips_def elems_def)

text \<open>
  C5, as the code has it. The name under which the image is saved, and which the new
  item carries, is the hexadecimal SHA-256 digest of the uploaded bytes followed by the
  extension of the uploaded file name. It depends on nothing else: two accepted uploads
  of the same bytes whose file names have the same extension, whatever the names,
  clocks, form values and catalogs, save the image under the same name and record that
  name in the item.
\<close>

theorem image_name_content_addressed:
  assumes "accepted f1 r1 file1" and "write_fault f1 = WriteOk"
    and "accepted f2 r2 file2" and "write_fault f2 = WriteOk"
    and "content file2 = content file1" and "Ext (Filename file2) = Ext (Filename file1)"
  shows "\<exists>key. key = hex (sha256 p (content file1)) @ Ext (Filename file1) \<and>
     snd (postItemsHandler p f1 now1 r1 w1) =
       \<lparr>items_json = Stored (encode_items_object p (Some (loaded p w1 @
            [\<lparr>ID = FormatInt now1, Name = form_name r1, Category = form_category r1,
              ImageName = key\<rparr>]))),
        images = (images w1)(key \<mapsto> content file1)\<rparr> \<and>
     snd (postItemsHandler p f2 now2 r2 w2) =
       \<lparr>items_json = Stored (encode_items_object p (Some (loaded p w2 @
            [\<lparr>ID = FormatInt now2, Name = form_name r2, Category = form_category r2,
              ImageName = key\<rparr>]))),
        images = (images w2)(key \<mapsto> content file1)\<rparr>"
  using assms(2,4,5,6)
  by (simp add: postItemsHandler_accepted [OF assms(1)] postItemsHandler_accepted [OF assms(3)]
      new_item_def)

lemma accepted_cap: "accepted no_faults req_cap cap_file"
  by (simp add: accepted_def no_faults_def req_cap_def)

lemma accepted_mug: "accepted no_faults req_mug mug_file"
  by (simp add: accepted_def no_faults_def req_mug_def)

theorem image_name_content_addressed_witness:
  "accepted no_faults req_cap cap_file \<and> accepted no_faults req_mug mug_file \<and>
   content mug_file = content cap_file \<and> Filename mug_file \<noteq> Filename cap_file \<and>
   Ext (Filename mug_file) = Ext (Filename cap_file) \<and>
   images (snd (postItemsHandler demo no_faults 7 req_cap w_missing))
     (replicate 62 (CHR ''0'') @ ''6b.png'') = Some ''xyz'' \<and>
   images (snd (postItemsHandler demo no_faults 8 req_mug w_two))
     (replicate 62 (CHR ''0'') @ ''6b.png'') = Some ''xyz''"
proof -
  have w: "write_fault no_faults = WriteOk" by (simp add: no_faults_def)
  have c: "content mug_file = content cap_file" by (simp add: mug_file_def cap_file_def)
  have e: "Ext (Filename mug_file) = Ext (Filename cap_file)" by code_simp
  have n: "Filename mug_file \<noteq> Filename cap_file" by (simp add: mug_file_def cap_file_def)
  have k: "hex (sha256 demo (content cap_file)) @ Ext (Filename cap_file)
             = replicate 62 (CHR ''0'') @ ''6b.png''"
    by code_simp
  show ?thesis
    using image_name_content_addressed [OF accepted_cap w accepted_mug w c e,
        of demo 7 w_missing 8 w_two]
      accepted_cap accepted_mug c e n unfolding k by (auto simp: cap_file_def)
qed


text \<open>
  C5 as stated fails when the two file names differ in their extension: the same bytes
  uploaded as \<open>cap.png\<close> and then as \<open>cap.jpeg\<close> are saved under two names, and the
  two items of the catalog carry different image names.
\<close>

theorem same_bytes_other_extension_other_name:
  "content cap_jpeg_file = content cap_file \<and>
   fst (postItemsHandler demo no_faults 7 req_cap w_missing) = created demo ''Cap'' \<and>
   fst (postItemsHandler demo no_faults 8 req_cap_jpeg
          (snd (postItemsHandler demo no_faults 7 req_cap w_missing))) = created demo ''Cap'' \<and>
   map ImageName (loaded demo
     (snd (postItemsHandler demo no_faults 8 req_cap_jpeg
            (snd (postItemsHandler demo no_faults 7 req_cap w_missing)))))
     = [replicate 62 (CHR ''0'') @ ''6b.png'', replicate 62 (CHR ''0'') @ ''6b.jpeg''] \<and>
   images (snd (postItemsHandler demo no_faults 8 req_cap_jpeg
            (snd (postItemsHandler demo no_faults 7 req_cap w_missing))))
     (replicate 62 (CHR ''0'') @ ''6b.png'') = Some ''xyz'' \<and>
   images (snd (postItemsHandler demo no_faults 8 req_cap_jpeg
            (snd (postItemsHandler demo no_faults 7 req_cap w_missing))))
     (replicate 62 (CHR ''0'') @ ''6b.jpeg'') = Some ''xyz''"
  by code_simp






section \<open>Ids of items created one after the other\<close>

lemma loaded_serve_posts:
  assumes "\<forall>c \<in> set cs. call_ok c"
    and "\<forall>xs \<in> set (prefixes (map (call_item p) cs)). xs \<noteq> [] \<longrightarrow> roundtrips p (loaded p w @ xs)"
  shows "loaded p (serve_posts p cs w) = loaded p w @ map (call_item p) cs"
  using assms
proof (induction cs arbitrary: w)
  case Nil
  then show ?case by simp
next
  case (Cons c cs)
  from Cons.prems(1) obtain up
    where acc: "accepted (call_faults c) (call_request c) up"
      and wr: "write_fault (call_faults c) = WriteOk"
    by (auto simp: call_ok_def)
  have item: "call_item p c = new_item p (call_now c) (call_request c) up"
    using acc by (simp add: call_item_def accepted_def)
  let ?w' = "snd (postItemsHandler p (call_faults c) (call_now c) (call_request c) w)"
  have "roundtrips p (loaded p w @ [call_item p c])"
    using Cons.prems(2) by simp
  then have step: "loaded p ?w' = loaded p w @ [call_item p c]"
    using loaded_after_post [OF acc wr] item by simp
  have "\<forall>xs \<in> set (prefixes (map (call_item p) cs)). xs \<noteq> [] \<longrightarrow> roundtrips p (loaded p ?w' @ xs)"
    using Cons.prems(2) step by simp
  then have "loaded p (serve_posts p cs ?w') = loaded p ?w' @ map (call_item p) cs"
    using Cons.IH Cons.prems(1) by simp
  then show ?case using step by simp
qed

lemma ID_call_item: "call_ok c \<Longrightarrow> ID (call_item p c) = FormatInt (call_now c)"
  by (auto simp: call_ok_def call_item_def accepted_def new_item_def)

lemma increasing_readings_distinct:
  "sorted_wrt (<) (map (\<lambda>c. sint (call_now c)) cs) \<Longrightarrow> distinct (map (\<lambda>c. FormatInt (call_now c)) cs)"
proof (induction cs)
  case Nil
  then show ?case by simp
next
  case (Cons c cs)
  have "FormatInt (call_now c) \<noteq> FormatInt (call_now c')" if "c' \<in> set cs" for c'
  proof
    assume "FormatInt (call_now c) = FormatInt (call_now c')"
    then have "call_now c = call_now c'" by (rule FormatInt_inj)
    moreover have "sint (call_now c) < sint (call_now c')" using Cons.prems that by auto
    ultimately show False by simp
  qed
  then show ?case using Cons by auto
qed

text \<open>
  C8, as the code has it. The id of a new item is the decimal rendering of the clock
  reading taken during the call. When the readings of POSTs served one after the other
  are strictly increasing, the ids they issue are pairwise distinct, and a catalog whose
  ids were distinct and different from the issued ones still has distinct ids afterwards.
  The calls are accepted, their writes succeed, and the decoder reads back each document
  written.
\<close>

theorem sequential_ids_distinct:
  assumes "\<forall>c \<in> set cs. call_ok c"
    and "sorted_wrt (<) (map (\<lambda>c. sint (call_now c)) cs)"
    and "distinct (map ID (loaded p w))"
    and "\<forall>x \<in> set (loaded p w). \<forall>c \<in> set cs. ID x \<noteq> FormatInt (call_now c)"
    and "\<forall>xs \<in> set (prefixes (map (call_item p) cs)). xs \<noteq> [] \<longrightarrow> roundtrips p (loaded p w @ xs)"
  shows "map ID (loaded p (serve_posts p cs w))
           = map ID (loaded p w) @ map (\<lambda>c. FormatInt (call_now c)) cs \<and>
         distinct (map (\<lambda>c. FormatInt (call_now c)) cs) \<and>
         distinct (map ID (loaded p (serve_posts p cs w)))"
proof -
  have "map ID (map (call_item p) cs) = map (\<lambda>c. FormatInt (call_now c)) cs"
    using assms(1) by (simp add: ID_call_item)
  then have ids: "map ID (loaded p (serve_posts p cs w))
           = map ID (loaded p w) @ map (\<lambda>c. FormatInt (call_now c)) cs"
    using loaded_serve_posts [OF assms(1,5)] by simp
  have new: "distinct (map (\<lambda>c. FormatInt (call_now c)) cs)"
    using assms(2) by (rule increasing_readings_distinct)
  have "set (map ID (loaded p w)) \<inter> set (map (\<lambda>c. FormatInt (call_now c)) cs) = {}"
    using assms(4) by auto
  then have "distinct (map ID (loaded p w) @ map (\<lambda>c. FormatInt (call_now c)) cs)"
    using assms(3) new by simp
  then show ?thesis using ids new by simp
qed


theorem sequential_ids_distinct_witness:
  "call_ok call_cap \<and> call_ok call_mug_later \<and>
   sorted_wrt (<) (map (\<lambda>c. sint (call_now c)) [call_cap, call_mug_later]) \<and>
   map ID (loaded demo (serve_posts demo [call_cap, call_mug_later] w_missing)) = [''7'', ''8''] \<and>
   distinct (map ID (loaded demo (serve_posts demo [call_cap, call_mug_later] w_missing)))"
proof -
  have ok: "\<forall>c \<in> set [call_cap, call_mug_later]. call_ok c"
    using accepted_cap accepted_mug
    by (auto simp: call_ok_def call_cap_def call_mug_later_def no_faults_def)
  have inc: "sorted_wrt (<) (map (\<lambda>c. sint (call_now c)) [call_cap, call_mug_later])"
    by (simp add: call_cap_def call_mug_later_def)
  have l0: "loaded demo w_missing = []" by code_simp
  have d0: "distinct (map ID (loaded demo w_missing))" by (simp add: l0)
  have f0: "\<forall>x \<in> set (loaded demo w_missing). \<forall>c \<in> set [call_cap, call_mug_later].
              ID x \<noteq> FormatInt (call_now c)"
    by (simp add: l0)
  have rt: "\<forall>xs \<in> set (prefixes (map (call_item demo) [call_cap, call_mug_later])).
              xs \<noteq> [] \<longrightarrow> roundtrips demo (loaded demo w_missing @ xs)"
    by code_simp
  have v: "map (\<lambda>c. FormatInt (call_now c)) [call_cap, call_mug_later] = [''7'', ''8'']"
    by code_simp
  show ?thesis
    using sequential_ids_distinct [OF ok inc d0 f0 rt] ok inc unfolding v l0 by simp
qed

text \<open>
  C8 as stated fails when the clock gives the same reading to two POSTs served one
  after the other: both are answered 201 and the catalog holds the id twice.
\<close>

theorem same_reading_same_id:
  "fst (postItemsHandler demo no_faults 7 req_cap w_missing) = created demo ''Cap'' \<and>
   fst (postItemsHandler demo no_faults 7 req_mug
          (snd (postItemsHandler demo no_faults 7 req_cap w_missing))) = created demo ''Mug'' \<and>
   map ID (loaded demo (serve_posts demo [call_cap, call_mug_same] w_missing)) = [''7'', ''7''] \<and>
   \<not> distinct (map ID (loaded demo (serve_posts demo [call_cap, call_mug_same] w_missing)))"
  by code_simp

section \<open>No document yet\<close>

text \<open>
  C9, as the code has it. While \<open>items.json\<close> does not exist, only the POST code treats
  the catalog as empty: the document it writes holds exactly the new item. The listing
  answers 500 with the error of the read.
\<close>

theorem missing_document_list_and_create:
  assumes "items_json w = Missing"
  shows "getItemsHandler w = http_Error ''open items.json: no such file or directory'' 500 \<and>
    (accepted f r file \<and> write_fault f = WriteOk \<longrightarrow>
       postItemsHandler p f now r w =
         (created p (form_name r),
          \<lparr>items_json = Stored (encode_items_object p (Some [new_item p now r file])),
           images = (images w)(ImageName (new_item p now r file) \<mapsto> content file)\<rparr>))"
  using assms
  by (auto simp: getItemsHandler_def postItemsHandler_accepted loaded_def zero_Items_def elems_def)

theorem missing_document_list_and_create_witness:
  "items_json w_missing = Missing \<and>
   accepted no_faults req_cap cap_file \<and> write_fault no_faults = WriteOk \<and>
   getItemsHandler w_missing = http_Error ''open items.json: no such file or directory'' 500 \<and>
   fst (postItemsHandler demo no_faults 7 req_cap w_missing) = created demo ''Cap'' \<and>
   items_json (snd (postItemsHandler demo no_faults 7 req_cap w_missing))
     = Stored (encode_items_object demo (Some [new_item demo 7 req_cap cap_file]))"
proof -
  have h: "items_json w_missing = Missing" by (simp add: w_missing_def)
  have w: "write_fault no_faults = WriteOk" by (simp add: no_faults_def)
  show ?thesis
    using missing_document_list_and_create [OF h, of no_faults req_cap cap_file demo 7]
      h w accepted_cap
    by (simp add: req_cap_def)
qed

text \<open>
  C9 as stated fails: the listing of a missing document is a storage failure.
\<close>

theorem list_of_missing_document_fails:
  "items_json w_missing = Missing \<and>
   getItemsHandler w_missing = http_Error ''open items.json: no such file or directory'' 500 \<and>
   status (getItemsHandler w_missing) = 500"
  by code_simp

section \<open>Errors the POST code drops\<close>

text \<open>
  Whatever \<open>json.Unmarshal\<close> says about the stored document, an accepted POST whose
  write succeeds replaces it: the new document holds what was decoded and the new item.
  A file that exists but cannot be read is replaced by a document with the new item only.
\<close>

lemma post_replaces_whatever_decodes:
  assumes "accepted f r file" and "write_fault f = WriteOk" and "items_json w = Stored d"
  shows "fst (postItemsHandler p f now r w) = created p (form_name r) \<and>
    items_json (snd (postItemsHandler p f now r w)) =
      Stored (encode_items_object p
        (Some (elems (Items (fst (Unmarshal p d))) @ [new_item p now r file])))"
  using assms(2,3) by (simp add: postItemsHandler_accepted [OF assms(1)] loaded_def)

lemma post_replaces_unreadable_document:
  assumes "accepted f r file" and "write_fault f = WriteOk" and "items_json w = Unreadable e"
  shows "fst (postItemsHandler p f now r w) = created p (form_name r) \<and>
    items_json (snd (postItemsHandler p f now r w)) =
      Stored (encode_items_object p (Some [new_item p now r file]))"
  using assms(2,3)
  by (simp add: postItemsHandler_accepted [OF assms(1)] loaded_def zero_Items_def elems_def)

text \<open>
  C1. The POST code calls \<open>json.Unmarshal\<close> without looking at its error, whereas the
  lookup and the search of the same file check it. Take a document cut off in the middle
  of its first item: the decoder reports an error and leaves the target empty, and the
  lookup answers 500. The POST is answered 201, and the document is replaced by one that
  holds the new item only, so the item stored before is lost.
\<close>

theorem post_replaces_corrupt_document:
  "items_json w_corrupt = Stored corrupt_doc \<and>
   snd (Unmarshal demo corrupt_doc) = Some ''invalid document'' \<and>
   getItemHandler demo ''1'' w_corrupt = http_Error ''invalid document'' 500 \<and>
   fst (postItemsHandler demo no_faults 7 req_cap w_corrupt) = created demo ''Cap'' \<and>
   status (fst (postItemsHandler demo no_faults 7 req_cap w_corrupt)) = 201 \<and>
   items_json (snd (postItemsHandler demo no_faults 7 req_cap w_corrupt))
     = Stored (encode_items_object demo (Some [new_item demo 7 req_cap cap_file]))"
  by code_simp

text \<open>
  C3. The POST code calls \<open>ioutil.WriteFile\<close> without looking at its error, whereas it
  checks the errors of saving the image and of \<open>json.Marshal\<close>. When the document cannot
  be opened for writing, the POST is still answered 201; the document is as before and a
  lookup of the new id answers 404.
\<close>

theorem post_answers_created_when_write_fails:
  "write_fault write_refused = OpenFails ''open items.json: permission denied'' \<and>
   snd (WriteFile (write_fault write_refused) (items_json w_two) two_items_doc)
     = Some ''open items.json: permission denied'' \<and>
   fst (postItemsHandler demo write_refused 7 req_cap w_two) = created demo ''Cap'' \<and>
   status (fst (postItemsHandler demo write_refused 7 req_cap w_two)) = 201 \<and>
   items_json (snd (postItemsHandler demo write_refused 7 req_cap w_two)) = Stored two_items_doc \<and>
   getItemHandler demo ''7'' (snd (postItemsHandler demo write_refused 7 req_cap w_two))
     = http_NotFound"
  by code_simp

text \<open>
  A write that fails after the file was truncated leaves a prefix of the new document,
  and the POST is answered 201 as well.
\<close>

lemma post_cut_short_write_truncates:
  \<open>status (fst (postItemsHandler demo write_cut_short 7 req_cap w_two)) = 201 \<and>
   items_json (snd (postItemsHandler demo write_cut_short 7 req_cap w_two)) = Stored ''{"item''\<close>
  by code_simp

end
